theory Spec2Isabelle
  imports Complex_Main "HOL-Library.Word"
begin

section \<open>Strings, numbers and the external collaborators\<close>

text \<open>
  A JavaScript string is a sequence of 16-bit code units; \<open>length\<close>, \<open>substring\<close>
  and the regular expressions of \<open>cli.js\<close> (none carries the \<open>u\<close> flag) all count code
  units.  Finite JavaScript numbers are idealised as exact rationals (no rounding, no
  \<open>NaN\<close>); quantities that the code only ever uses as whole numbers are integers.
\<close>

type_synonym jschar = "16 word"
type_synonym jsstring = "jschar list"

definition js :: "string \<Rightarrow> jsstring" where
  "js s = map of_char s"

definition SPACE :: jschar where "SPACE = 0x20"
definition TAB :: jschar where "TAB = 0x09"
definition NEWLINE :: jschar where "NEWLINE = 0x0A"
definition CR :: jschar where "CR = 0x0D"
definition ESC :: jschar where "ESC = 0x1B"
definition LBRACKET :: jschar where "LBRACKET = 0x5B"
definition LOWER_M :: jschar where "LOWER_M = 0x6D"
definition ELLIPSIS :: jschar where "ELLIPSIS = 0x2026"

text \<open>A read \<open>xs[i]\<close> of a JavaScript array: \<open>None\<close> stands for \<open>undefined\<close>.\<close>

fun nth_opt :: "'a list \<Rightarrow> nat \<Rightarrow> 'a option" where
  "nth_opt [] i = None"
| "nth_opt (x # xs) 0 = Some x"
| "nth_opt (x # xs) (Suc i) = nth_opt xs i"

text \<open>A glyph read from an array of strings and appended to a string: \<open>undefined\<close>
  is stringified.  The index is the integer the code computes; a negative one reads
  \<open>undefined\<close> as well.\<close>

definition glyph_at :: "jsstring list \<Rightarrow> int \<Rightarrow> jsstring" where
  "glyph_at gs i =
     (if i < 0 then js ''undefined''
      else case nth_opt gs (nat i) of None \<Rightarrow> js ''undefined'' | Some g \<Rightarrow> g)"

text \<open>A style entry is a chalk style name or a transform function.\<close>

datatype style = Named string | Func "jsstring \<Rightarrow> jsstring"

text \<open>
  What \<open>cli.js\<close> consumes from the platform and from the packages it requires
  (\<open>string-width\<close>, \<open>chalk\<close>, \<open>pixl-tools\<close>): whether stdout is a terminal and how many
  columns it has, the display width of a string, the transform chalk gives for a style
  name, \<open>Tools.pct\<close>, \<open>Tools.getNiceRemainingTime\<close> and the clock \<open>Tools.timeNow\<close>.
  They are parameters of the model.
\<close>

record env =
  tty :: bool
  columns :: int
  stringWidth :: "jsstring \<Rightarrow> nat"
  chalk :: "string \<Rightarrow> jsstring \<Rightarrow> jsstring"
  pct_text :: "rat \<Rightarrow> rat \<Rightarrow> jsstring"
  getNiceRemainingTime :: "rat \<Rightarrow> rat \<Rightarrow> rat \<Rightarrow> jsstring"
  timeNow :: rat

text \<open>\<open>cli.width\<close>\<close>

definition cli_width :: "env \<Rightarrow> int" where
  "cli_width e = (if \<not> tty e then 0 else columns e)"

text \<open>\<open>cli.repeat\<close>, \<open>cli.space\<close>, \<open>cli.pad\<close>\<close>

definition repeat :: "jsstring \<Rightarrow> int \<Rightarrow> jsstring" where
  "repeat txt amount = (if amount = 0 \<or> amount < 0 then [] else concat (replicate (nat amount) txt))"

definition space :: "int \<Rightarrow> jsstring" where
  "space amount = repeat [SPACE] amount"

definition pad :: "env \<Rightarrow> jsstring \<Rightarrow> int \<Rightarrow> jsstring" where
  "pad e txt width = txt @ space (width - int (stringWidth e txt))"

text \<open>\<open>cli.applyStyles\<close>: \<open>None\<close> is a missing style list.\<close>

fun applyStyle :: "env \<Rightarrow> style \<Rightarrow> jsstring \<Rightarrow> jsstring" where
  "applyStyle e (Func f) txt = f txt"
| "applyStyle e (Named n) txt = chalk e n txt"

definition applyStyles :: "env \<Rightarrow> jsstring \<Rightarrow> style list option \<Rightarrow> jsstring" where
  "applyStyles e txt styles =
     (case styles of None \<Rightarrow> txt | Some sts \<Rightarrow> fold (applyStyle e) sts txt)"

text \<open>The indent option is a number or a string.\<close>

datatype indent_val = IndentNum int | IndentStr jsstring

section \<open>Table layout\<close>

subsection \<open>Column widths\<close>

text \<open>
  The pattern \<open>rows.forEach(cols => cols.forEach((col, idy) => ws[idy] = Math.max(ws[idy] || 0, f))\<close>
  occurs three times.  An assignment at index \<open>length ws\<close> extends the array; the
  column index never exceeds the length, since it counts up from 0 in every row.
\<close>

definition or0 :: "nat option \<Rightarrow> nat" where
  "or0 v = (case v of None \<Rightarrow> 0 | Some n \<Rightarrow> n)"

definition put :: "nat list \<Rightarrow> nat \<Rightarrow> nat \<Rightarrow> nat list" where
  "put ws i v = (if i < length ws then ws[i := v] else ws @ [v])"

fun colsLoop :: "(nat \<Rightarrow> jsstring \<Rightarrow> nat) \<Rightarrow> nat \<Rightarrow> jsstring list \<Rightarrow> nat list \<Rightarrow> nat list" where
  "colsLoop f idy [] ws = ws"
| "colsLoop f idy (col # cols) ws =
     colsLoop f (Suc idy) cols (put ws idy (max (or0 (nth_opt ws idy)) (f idy col)))"

fun rowsLoop :: "(nat \<Rightarrow> jsstring \<Rightarrow> nat) \<Rightarrow> jsstring list list \<Rightarrow> nat list \<Rightarrow> nat list" where
  "rowsLoop f [] ws = ws"
| "rowsLoop f (cols # rows) ws = rowsLoop f rows (colsLoop f 0 cols ws)"

text \<open>A border line: the left corner, a run of horizontal strokes per column with a
  joint between columns, the right corner.\<close>

definition HLINE :: jschar where "HLINE = 0x2500"
definition VLINE :: jschar where "VLINE = 0x2502"

fun borderLoop :: "jschar \<Rightarrow> nat \<Rightarrow> nat \<Rightarrow> nat list \<Rightarrow> jsstring \<Rightarrow> jsstring" where
  "borderLoop joint numCols idx [] line = line"
| "borderLoop joint numCols idx (num # nums) line =
     borderLoop joint numCols (Suc idx) nums
       (let line = line @ repeat [HLINE] (int num)
        in if int idx < int numCols - 1 then line @ [joint] else line)"

definition borderLine :: "jschar \<Rightarrow> jschar \<Rightarrow> jschar \<Rightarrow> nat list \<Rightarrow> jsstring" where
  "borderLine left joint right widestCols =
     borderLoop joint (length widestCols) 0 widestCols [left] @ [right]"

subsection \<open>Auto-fit\<close>

text \<open>\<open>max_col_widths\<close> as first computed (lines 254--259).\<close>

definition naturalWidths :: "env \<Rightarrow> jsstring list list \<Rightarrow> nat list" where
  "naturalWidths e rows = rowsLoop (\<lambda>idy col. stringWidth e col) rows []"

text \<open>\<open>measureTableWidth\<close> (lines 261--280).  \<open>max_col_widths[idy]\<close> is defined for every
  column of every row; were it \<open>undefined\<close> the minimum would be \<open>NaN\<close>, which the model
  does not represent, and the cell's own width is used.\<close>

definition measureTableWidth :: "env \<Rightarrow> jsstring list list \<Rightarrow> nat list \<Rightarrow> nat" where
  "measureTableWidth e rows max_col_widths =
     (let widestCols =
            rowsLoop (\<lambda>idy col.
                (case nth_opt max_col_widths idy of
                   None \<Rightarrow> stringWidth e col
                 | Some w \<Rightarrow> min (stringWidth e col) w) + 2) rows []
      in length (borderLine 0x250C 0x252C 0x2510 widestCols))"

text \<open>\<open>Math.max.apply(Math, xs)\<close>: \<open>None\<close> is \<open>-Infinity\<close>, the maximum of no numbers.
  \<open>xs.indexOf(v)\<close>: \<open>None\<close> is \<open>-1\<close>.\<close>

definition math_max :: "nat list \<Rightarrow> nat option" where
  "math_max xs = (if xs = [] then None else Some (fold max xs 0))"

fun indexOf :: "nat list \<Rightarrow> nat \<Rightarrow> nat option" where
  "indexOf [] v = None"
| "indexOf (x # xs) v = (if x = v then Some 0 else map_option Suc (indexOf xs v))"

text \<open>The shrinking loop (lines 283--292).  It ends in one of two ways: the loop
  condition fails (\<open>Fitted\<close>), or one of the two \<open>return\<close> statements leaves
  \<open>autoFitTableRows\<close> altogether (\<open>Braked\<close>).  Both carry \<open>max_col_widths\<close> as it stands
  at that moment.\<close>

datatype fit_result = Fitted "nat list" | Braked "nat list"

function fitLoop :: "env \<Rightarrow> jsstring list list \<Rightarrow> int \<Rightarrow> nat list \<Rightarrow> fit_result" where
  "fitLoop e rows avail_width max_col_widths =
     (if int (measureTableWidth e rows max_col_widths) > avail_width then
        (case math_max max_col_widths of
           None \<Rightarrow> Braked max_col_widths
         | Some longest_col_width \<Rightarrow>
             if longest_col_width < 2 then Braked max_col_widths
             else (case indexOf max_col_widths longest_col_width of
                     None \<Rightarrow> Braked max_col_widths
                   | Some longest_col_idx \<Rightarrow>
                       fitLoop e rows avail_width
                         (max_col_widths[longest_col_idx := max_col_widths ! longest_col_idx - 1])))
      else Fitted max_col_widths)"
  by pat_completeness auto

text \<open>The two regular expressions of the pruning step.  \<open>/^(\u001b\[[^m]*?m)/\<close> matches
  at the start of the string: ESC, \<open>[\<close>, the code units up to the first \<open>m\<close>, and that
  \<open>m\<close>.  The result is the match and the string without it.\<close>

definition leadingEscape :: "jsstring \<Rightarrow> (jsstring \<times> jsstring) option" where
  "leadingEscape col =
     (case col of
        e # b # rest \<Rightarrow>
          if e = ESC \<and> b = LBRACKET \<and> LOWER_M \<in> set rest
          then Some ([e, b] @ takeWhile (\<lambda>c. c \<noteq> LOWER_M) rest @ [LOWER_M],
                     tl (dropWhile (\<lambda>c. c \<noteq> LOWER_M) rest))
          else None
      | _ \<Rightarrow> None)"

text \<open>\<open>/(\u001b\[[^m]*?m)$/\<close> is tried at every start position from the left; at a
  position it matches when the rest of the string is ESC, \<open>[\<close>, code units other than
  \<open>m\<close>, and a final \<open>m\<close>.  The result is the string before the match and the match.\<close>

definition styleEscape :: "jsstring \<Rightarrow> bool" where
  "styleEscape s =
     (case s of
        e # b # rest \<Rightarrow>
          e = ESC \<and> b = LBRACKET \<and> rest \<noteq> [] \<and> last rest = LOWER_M \<and> LOWER_M \<notin> set (butlast rest)
      | _ \<Rightarrow> False)"

fun trailingEscape :: "jsstring \<Rightarrow> (jsstring \<times> jsstring) option" where
  "trailingEscape [] = None"
| "trailingEscape (c # cs) =
     (if styleEscape (c # cs) then Some ([], c # cs)
      else map_option (\<lambda>(before, m). (c # before, m)) (trailingEscape cs))"

text \<open>The two \<open>while\<close> loops (lines 302--310): \<open>prefix += $1\<close> and \<open>suffix = $1 + suffix\<close>.\<close>

function stripLeading :: "jsstring \<Rightarrow> jsstring \<Rightarrow> jsstring \<times> jsstring" where
  "stripLeading prefix col =
     (case leadingEscape col of
        None \<Rightarrow> (prefix, col)
      | Some (m, rest) \<Rightarrow> stripLeading (prefix @ m) rest)"
  by pat_completeness auto

function stripTrailing :: "jsstring \<Rightarrow> jsstring \<Rightarrow> jsstring \<times> jsstring" where
  "stripTrailing col suffix =
     (case trailingEscape col of
        None \<Rightarrow> (col, suffix)
      | Some (before, m) \<Rightarrow> stripTrailing before (m @ suffix))"
  by pat_completeness auto

text \<open>The pruning of one cell (lines 297--313).  \<open>substring(0, n)\<close> takes \<open>n\<close> code
  units and treats a negative \<open>n\<close> as 0.  A comparison with \<open>undefined\<close> is false.\<close>

definition truncateCell :: "jsstring \<Rightarrow> nat \<Rightarrow> jsstring" where
  "truncateCell col w =
     (let (prefix, col) = stripLeading [] col;
          (col, suffix) = stripTrailing col []
      in prefix @ take (nat (int w - 1)) col @ [ELLIPSIS] @ suffix)"

definition pruneCell :: "env \<Rightarrow> nat list \<Rightarrow> nat \<Rightarrow> jsstring \<Rightarrow> jsstring" where
  "pruneCell e max_col_widths idy col =
     (case nth_opt max_col_widths idy of
        None \<Rightarrow> col
      | Some w \<Rightarrow> if stringWidth e col > w then truncateCell col w else col)"

fun pruneCols :: "env \<Rightarrow> nat list \<Rightarrow> nat \<Rightarrow> jsstring list \<Rightarrow> jsstring list" where
  "pruneCols e max_col_widths idy [] = []"
| "pruneCols e max_col_widths idy (col # cols) =
     pruneCell e max_col_widths idy col # pruneCols e max_col_widths (Suc idy) cols"

text \<open>\<open>cli.autoFitTableRows\<close>.  The rows are changed in place; the model returns them.\<close>

definition autoFitTableRows :: "env \<Rightarrow> jsstring list list \<Rightarrow> jsstring \<Rightarrow> jsstring list list" where
  "autoFitTableRows e rows indent =
     (let avail_width = cli_width e - int (stringWidth e indent) * 2
      in if avail_width < 1 then rows
         else case fitLoop e rows avail_width (naturalWidths e rows) of
                Braked max_col_widths \<Rightarrow> rows
              | Fitted max_col_widths \<Rightarrow> map (pruneCols e max_col_widths 0) rows)"

subsection \<open>Rendering\<close>

datatype error = TypeError

record table_args =
  headerStyles :: "style list option"
  borderStyles :: "style list option"
  textStyles :: "style list option"
  tindent :: "indent_val option"
  autoFit :: bool

fun join :: "jsstring \<Rightarrow> jsstring list \<Rightarrow> jsstring" where
  "join sep [] = []"
| "join sep [x] = x"
| "join sep (x # y # ys) = x @ sep @ join sep (y # ys)"

text \<open>The cells of one row (lines 355--358 and 373--376).\<close>

fun cellsLoop ::
  "env \<Rightarrow> style list \<Rightarrow> style list \<Rightarrow> nat list \<Rightarrow> nat \<Rightarrow> jsstring list \<Rightarrow> jsstring \<Rightarrow> jsstring" where
  "cellsLoop e cellStyles bStyles widestCols idx [] line = line"
| "cellsLoop e cellStyles bStyles widestCols idx (col # cols) line =
     cellsLoop e cellStyles bStyles widestCols (Suc idx) cols
       (let col = applyStyles e ([SPACE] @ col @ [SPACE]) (Some cellStyles)
        in line
           @ (case nth_opt widestCols idx of None \<Rightarrow> col | Some w \<Rightarrow> pad e col (int w))
           @ applyStyles e [VLINE] (Some bStyles))"

text \<open>\<open>args.indent = args.indent || ""\<close>, then a number becomes that many spaces
  (lines 328--329).\<close>

definition tableIndent :: "table_args \<Rightarrow> jsstring" where
  "tableIndent targs =
     (case tindent targs of
        None \<Rightarrow> []
      | Some (IndentStr s) \<Rightarrow> s
      | Some (IndentNum n) \<Rightarrow> if n = 0 then [] else space n)"

text \<open>\<open>cli.table\<close>.  The result is the rendered text and the caller's \<open>rows\<close> array as
  the call leaves it; \<open>rows.shift()\<close> of an empty array is \<open>undefined\<close>, and
  \<open>undefined.forEach\<close> throws.  An empty style array is truthy and is kept.\<close>

definition table ::
  "env \<Rightarrow> jsstring list list \<Rightarrow> table_args \<Rightarrow> error + (jsstring \<times> jsstring list list)" where
  "table e rows targs =
     (let hStyles = (case headerStyles targs of None \<Rightarrow> [Named ''bold'', Named ''yellow''] | Some s \<Rightarrow> s);
          bStyles = (case borderStyles targs of None \<Rightarrow> [Named ''gray''] | Some s \<Rightarrow> s);
          tStyles = (case textStyles targs of None \<Rightarrow> [Named ''cyan''] | Some s \<Rightarrow> s);
          indent = tableIndent targs;
          rows = (if autoFit targs then autoFitTableRows e rows indent else rows);
          widestCols = rowsLoop (\<lambda>idy col. stringWidth e col + 2) rows [];
          top = indent @ applyStyles e (borderLine 0x250C 0x252C 0x2510 widestCols) (Some bStyles)
      in case rows of
           [] \<Rightarrow> Inl TypeError
         | header # body \<Rightarrow>
             (let headerLine =
                    indent @ cellsLoop e hStyles bStyles widestCols 0 header
                               (applyStyles e [VLINE] (Some bStyles));
                  divider =
                    indent @ applyStyles e (borderLine 0x251C 0x253C 0x2524 widestCols) (Some bStyles);
                  content =
                    map (\<lambda>cols. indent @ cellsLoop e tStyles bStyles widestCols 0 cols
                                           (applyStyles e [VLINE] (Some bStyles))) body;
                  bottom =
                    indent @ applyStyles e (borderLine 0x2514 0x2534 0x2518 widestCols) (Some bStyles)
              in Inr (join [NEWLINE] ([top, headerLine, divider] @ content @ [bottom]), body)))"

section \<open>The progress bar\<close>

text \<open>
  The options of a session.  A style list that is missing (\<open>undefined\<close>) is \<open>None\<close>.
  A number that is missing is 0 and a string that is missing is empty: the code tests
  them for truthiness only.  The interval timer and the process hooks of \<open>start\<close>
  (\<open>freq\<close>, \<open>catchInt\<close>, \<open>catchTerm\<close>, \<open>catchCrash\<close>, \<open>exitOnSig\<close>) are outside this
  model, which describes single calls.
\<close>

record style_set =
  spinner_style :: "style list option"
  braces_style :: "style list option"
  bar_style :: "style list option"
  indeterminate_style :: "style list option"
  pct_style :: "style list option"
  remain_style :: "style list option"
  text_style :: "style list option"

record pargs =
  amount :: rat
  max_amount :: rat
  text_str :: jsstring
  width :: int
  indent :: indent_val
  color :: bool
  unicode :: bool
  remain :: bool
  spinner :: "jsstring list"
  braces :: "jsstring list"
  filling :: "jsstring list"
  filled :: jsstring
  styles :: style_set
  pct :: bool
  quiet :: bool
  timeStart :: rat
  lastRemainCheck :: rat
  lastRemainString :: jsstring

text \<open>An options object passed to \<open>start\<close> or \<open>update\<close>: every key may be absent.\<close>

record overrides =
  o_amount :: "rat option"
  o_max :: "rat option"
  o_text :: "jsstring option"
  o_width :: "int option"
  o_indent :: "indent_val option"
  o_color :: "bool option"
  o_unicode :: "bool option"
  o_remain :: "bool option"
  o_spinner :: "jsstring list option"
  o_braces :: "jsstring list option"
  o_filling :: "jsstring list option"
  o_filled :: "jsstring option"
  o_styles :: "style_set option"
  o_pct :: "bool option"
  o_quiet :: "bool option"
  o_timeStart :: "rat option"
  o_lastRemainCheck :: "rat option"
  o_lastRemainString :: "jsstring option"

definition no_overrides :: overrides where
  "no_overrides =
     \<lparr>o_amount = None, o_max = None, o_text = None, o_width = None, o_indent = None,
      o_color = None, o_unicode = None, o_remain = None, o_spinner = None, o_braces = None,
      o_filling = None, o_filled = None, o_styles = None, o_pct = None, o_quiet = None,
      o_timeStart = None, o_lastRemainCheck = None, o_lastRemainString = None\<rparr>"

text \<open>\<open>Tools.mergeHashInto(a, b)\<close>, and the loop of \<open>update\<close>: every key of \<open>b\<close> is
  assigned to \<open>a\<close>.\<close>

definition ovr :: "'a option \<Rightarrow> 'a \<Rightarrow> 'a" where
  "ovr b a = (case b of None \<Rightarrow> a | Some v \<Rightarrow> v)"

definition mergeHashInto :: "pargs \<Rightarrow> overrides \<Rightarrow> pargs" where
  "mergeHashInto a b =
     \<lparr>amount = ovr (o_amount b) (amount a),
      max_amount = ovr (o_max b) (max_amount a),
      text_str = ovr (o_text b) (text_str a),
      width = ovr (o_width b) (width a),
      indent = ovr (o_indent b) (indent a),
      color = ovr (o_color b) (color a),
      unicode = ovr (o_unicode b) (unicode a),
      remain = ovr (o_remain b) (remain a),
      spinner = ovr (o_spinner b) (spinner a),
      braces = ovr (o_braces b) (braces a),
      filling = ovr (o_filling b) (filling a),
      filled = ovr (o_filled b) (filled a),
      styles = ovr (o_styles b) (styles a),
      pct = ovr (o_pct b) (pct a),
      quiet = ovr (o_quiet b) (quiet a),
      timeStart = ovr (o_timeStart b) (timeStart a),
      lastRemainCheck = ovr (o_lastRemainCheck b) (lastRemainCheck a),
      lastRemainString = ovr (o_lastRemainString b) (lastRemainString a)\<rparr>"

text \<open>\<open>progress.defaults\<close> and \<open>progress.asciiOverrides\<close>.\<close>

definition defaults :: pargs where
  "defaults =
     \<lparr>amount = 0, max_amount = 0, text_str = [], width = 30, indent = IndentStr [],
      color = True, unicode = True, remain = True,
      spinner = [[0x280B], [0x2819], [0x2839], [0x2838], [0x283C], [0x2834], [0x2826], [0x2827],
                 [0x2807], [0x280F]],
      braces = [[0x27E6], [0x27E7]],
      filling = [[0x20], [0x2840], [0x2844], [0x2846], [0x2847], [0x28C7], [0x28E7], [0x28F7]],
      filled = [0x28FF],
      styles =
        \<lparr>spinner_style = Some [Named ''bold'', Named ''green''],
         braces_style = Some [Named ''gray''],
         bar_style = Some [Named ''bold'', Named ''cyan''],
         indeterminate_style = Some [Named ''gray''],
         pct_style = Some [Named ''bold'', Named ''yellow''],
         remain_style = Some [Named ''green''],
         text_style = Some []\<rparr>,
      pct = True, quiet = False, timeStart = 0, lastRemainCheck = 0, lastRemainString = []\<rparr>"

definition asciiOverrides :: overrides where
  "asciiOverrides =
     no_overrides
       \<lparr>o_spinner := Some [js ''|'', js ''/'', js ''-'', [0x5C]],
        o_filling := Some [js '' '', js ''.'', js '':''],
        o_filled := Some (js ''#''),
        o_braces := Some [js ''['', js '']'']\<rparr>"

text \<open>The object \<open>{}\<close>: every key is missing.\<close>

definition no_styles :: style_set where
  "no_styles =
     \<lparr>spinner_style = None, braces_style = None, bar_style = None, indeterminate_style = None,
      pct_style = None, remain_style = None, text_style = None\<rparr>"

definition empty_args :: pargs where
  "empty_args =
     \<lparr>amount = 0, max_amount = 0, text_str = [], width = 0, indent = IndentStr [],
      color = False, unicode = False, remain = False, spinner = [], braces = [], filling = [],
      filled = [], styles = no_styles, pct = False, quiet = False, timeStart = 0,
      lastRemainCheck = 0, lastRemainString = []\<rparr>"

text \<open>The session: the fields of \<open>cli.progress\<close> and what has been written to stdout.\<close>

record progress =
  running :: bool
  args :: pargs
  spinFrame :: nat
  lastLine :: jsstring
  out :: "jsstring list"

definition idle :: progress where
  "idle = \<lparr>running = False, args = empty_args, spinFrame = 0, lastLine = [], out = []\<rparr>"

text \<open>A number turned into text by \<open>+=\<close>, and \<open>String.prototype.trim\<close>.\<close>

fun digits :: "nat \<Rightarrow> jsstring" where
  "digits n = (if n < 10 then [0x30 + of_nat n] else digits (n div 10) @ [0x30 + of_nat (n mod 10)])"

definition number_text :: "int \<Rightarrow> jsstring" where
  "number_text n = (if n < 0 then 0x2D # digits (nat (- n)) else digits (nat n))"

definition indent_text :: "indent_val \<Rightarrow> jsstring" where
  "indent_text i = (case i of IndentNum n \<Rightarrow> number_text n | IndentStr s \<Rightarrow> s)"

definition is_ws :: "jschar \<Rightarrow> bool" where
  "is_ws c \<longleftrightarrow>
     c \<in> {0x09, 0x0A, 0x0B, 0x0C, 0x0D, 0x20, 0xA0, 0x1680, 0x2028, 0x2029, 0x202F, 0x205F,
           0x3000, 0xFEFF} \<or> (0x2000 \<le> c \<and> c \<le> 0x200A)"

definition trim :: "jsstring \<Rightarrow> jsstring" where
  "trim s = rev (dropWhile is_ws (rev (dropWhile is_ws s)))"

text \<open>\<open>Math.max(0, Math.min(amount / max, 1.0))\<close>.  Division by zero gives an infinity,
  which the clamp turns into 1 or 0, or \<open>NaN\<close>, for which the bar comes out empty as it
  does for 0.\<close>

definition clampedRatio :: "rat \<Rightarrow> rat \<Rightarrow> rat" where
  "clampedRatio amt mx =
     (if mx = 0 then (if amt > 0 then 1 else 0) else max 0 (min (amt / mx) 1))"

text \<open>The bar body (lines 622--630).\<close>

definition barBody :: "env \<Rightarrow> pargs \<Rightarrow> jsstring" where
  "barBody e a =
     (let w = clampedRatio (amount a) (max_amount a) * of_int (width a);
          partial = w - of_int \<lfloor>w\<rfloor>;
          bar = repeat (filled a) \<lfloor>w\<rfloor>;
          bar = (if partial > 0
                 then bar @ glyph_at (filling a) \<lfloor>partial * of_nat (length (filling a))\<rfloor>
                 else bar)
      in bar @ space (width a - int (stringWidth e bar)))"

text \<open>The padding that overwrites a longer previous line (lines 663--669).\<close>

definition cleanUp :: "env \<Rightarrow> jsstring \<Rightarrow> jsstring \<Rightarrow> jsstring" where
  "cleanUp e prev line =
     (if prev \<noteq> [] then
        (let curWidth = stringWidth e line; lastWidth = stringWidth e prev
         in if curWidth < lastWidth then line @ space (int lastWidth - int curWidth) else line)
      else line)"

text \<open>\<open>progress.draw\<close>.  With an empty spinner array the index \<open>spinFrame % 0\<close> is
  \<open>NaN\<close> and the read is \<open>undefined\<close>, which is what \<open>glyph_at\<close> gives for an empty
  array at any index.\<close>

definition draw :: "env \<Rightarrow> progress \<Rightarrow> progress" where
  "draw e p =
     (if \<not> running p then p
      else if \<not> tty e then p
      else
        (let a = args p;
             line = indent_text (indent a);
             line = line @ applyStyles e
                      (glyph_at (spinner a) (int (spinFrame p) mod int (length (spinner a))))
                      (spinner_style (styles a));
             p = p\<lparr>spinFrame := Suc (spinFrame p)\<rparr>;
             line = line @ [SPACE];
             line = line @ applyStyles e (glyph_at (braces a) 0) (braces_style (styles a));
             bar = barBody e a;
             line = line @ applyStyles e bar
                      (if amount a = max_amount a then indeterminate_style (styles a)
                       else bar_style (styles a));
             line = line @ applyStyles e (glyph_at (braces a) 1) (braces_style (styles a));
             line = (if pct a
                     then line @ [SPACE]
                          @ applyStyles e (pct_text e (amount a) (max_amount a)) (pct_style (styles a))
                     else line);
             now = timeNow e;
             elapsed = now - timeStart a;
             (a, line) =
               (if amount a > 0 \<and> amount a < max_amount a \<and> elapsed \<ge> 5 \<and> remain a then
                  (let a = (if now - lastRemainCheck a \<ge> 1
                            then a\<lparr>lastRemainString :=
                                     getNiceRemainingTime e elapsed (amount a) (max_amount a),
                                   lastRemainCheck := now\<rparr>
                            else a)
                   in (a, if lastRemainString a \<noteq> []
                          then line @ applyStyles e
                                 (js '' ('' @ lastRemainString a @ js '' remain)'')
                                 (remain_style (styles a))
                          else line))
                else (a, line));
             line = (if text_str a \<noteq> []
                     then line @ [SPACE] @ applyStyles e (trim (text_str a)) (text_style (styles a))
                     else line);
             line = cleanUp e (lastLine p) line;
             p = p\<lparr>args := a\<rparr>;
             p = (if \<not> quiet a then p\<lparr>out := out p @ [line @ [CR]]\<rparr> else p)
         in p\<lparr>lastLine := line\<rparr>))"

text \<open>\<open>progress.start\<close>.  The assignments \<open>if (!args.amount) args.amount = 0\<close>,
  \<open>if (!args.text) args.text = ""\<close> and \<open>if (!args.lastRemainCheck) args.lastRemainCheck = 0\<close>
  change nothing in this representation.\<close>

definition start :: "env \<Rightarrow> overrides \<Rightarrow> progress \<Rightarrow> progress" where
  "start e ov p =
     (if \<not> tty e then p
      else
        (let a = mergeHashInto defaults ov;
             a = (if max_amount a = 0 then a\<lparr>max_amount := 1\<rparr> else a);
             a = (if timeStart a = 0 then a\<lparr>timeStart := timeNow e\<rparr> else a);
             a = (if \<not> color a then a\<lparr>styles := no_styles\<rparr> else a);
             a = (if \<not> unicode a then mergeHashInto a asciiOverrides else a);
             a = (case indent a of IndentNum n \<Rightarrow> a\<lparr>indent := IndentStr (space n)\<rparr> | IndentStr s \<Rightarrow> a);
             a = a\<lparr>indent :=
                    IndentStr (concat (map (\<lambda>c. if c = TAB then js ''    '' else [c])
                                        (indent_text (indent a))))\<rparr>;
             p = p\<lparr>args := a, running := True, spinFrame := 0, lastLine := []\<rparr>;
             p = draw e p
         in if \<not> quiet (args p) then p\<lparr>out := out p @ [ESC # js ''[?25l'']\<rparr> else p))"

text \<open>\<open>progress.update\<close>: the argument is a number or an options object.\<close>

datatype update_arg = Num rat | Obj overrides

definition update :: "env \<Rightarrow> update_arg \<Rightarrow> progress \<Rightarrow> progress" where
  "update e u p =
     (if \<not> running p then p
      else if \<not> tty e then p
      else
        (let a = (case u of
                    Num n \<Rightarrow> (args p)\<lparr>amount := n\<rparr>
                  | Obj b \<Rightarrow> mergeHashInto (args p) b)
         in p\<lparr>args := a\<lparr>amount := max 0 (min (max_amount a) (amount a))\<rparr>\<rparr>))"

text \<open>\<open>progress.erase\<close>\<close>

definition erase :: "env \<Rightarrow> progress \<Rightarrow> progress" where
  "erase e p =
     (if \<not> running p then p
      else if \<not> tty e then p
      else if lastLine p \<noteq> [] \<and> \<not> quiet (args p)
      then p\<lparr>out := out p @ [space (int (stringWidth e (lastLine p))) @ [CR]]\<rparr>
      else p)"

text \<open>\<open>progress.end\<close>: the argument is absent or a boolean, and only \<open>false\<close> keeps
  the line.  The cursor is restored after \<open>args\<close> has been reset, so \<open>quiet\<close> is
  read from the empty object.\<close>

definition end_session :: "env \<Rightarrow> bool option \<Rightarrow> progress \<Rightarrow> progress" where
  "end_session e er p =
     (if \<not> running p then p
      else if \<not> tty e then p
      else
        (let p = (if er \<noteq> Some False then erase e p else p);
             p = p\<lparr>running := False, args := empty_args, lastLine := []\<rparr>
         in if \<not> quiet (args p) then p\<lparr>out := out p @ [ESC # js ''[?25h'']\<rparr> else p))"

section \<open>Named parts of the definitions above\<close>

text \<open>
  The theorems below speak about parts of \<open>draw\<close>, \<open>start\<close> and \<open>table\<close>.  Each part gets
  a name here; the lemmas \<open>draw_unfold\<close> and \<open>start_unfold\<close> show that the functions are
  composed of exactly these parts.
\<close>

text \<open>The condition of line 646, the options after lines 647--650, and the segments of
  the line in the order in which \<open>draw\<close> appends them.\<close>

definition remainShown :: "env \<Rightarrow> pargs \<Rightarrow> bool" where
  "remainShown e a \<longleftrightarrow>
     amount a > 0 \<and> amount a < max_amount a \<and> timeNow e - timeStart a \<ge> 5 \<and> remain a"

definition remainArgs :: "env \<Rightarrow> pargs \<Rightarrow> pargs" where
  "remainArgs e a =
     (if remainShown e a \<and> timeNow e - lastRemainCheck a \<ge> 1
      then a\<lparr>lastRemainString :=
               getNiceRemainingTime e (timeNow e - timeStart a) (amount a) (max_amount a),
             lastRemainCheck := timeNow e\<rparr>
      else a)"

definition spinnerSeg :: "env \<Rightarrow> pargs \<Rightarrow> nat \<Rightarrow> jsstring" where
  "spinnerSeg e a frame =
     applyStyles e (glyph_at (spinner a) (int frame mod int (length (spinner a))))
       (spinner_style (styles a))"

definition braceSeg :: "env \<Rightarrow> pargs \<Rightarrow> int \<Rightarrow> jsstring" where
  "braceSeg e a i = applyStyles e (glyph_at (braces a) i) (braces_style (styles a))"

definition barSeg :: "env \<Rightarrow> pargs \<Rightarrow> jsstring" where
  "barSeg e a =
     applyStyles e (barBody e a)
       (if amount a = max_amount a then indeterminate_style (styles a) else bar_style (styles a))"

definition pctSeg :: "env \<Rightarrow> pargs \<Rightarrow> jsstring" where
  "pctSeg e a =
     (if pct a
      then [SPACE] @ applyStyles e (pct_text e (amount a) (max_amount a)) (pct_style (styles a))
      else [])"

definition remainSeg :: "env \<Rightarrow> pargs \<Rightarrow> jsstring" where
  "remainSeg e a =
     (if remainShown e a \<and> lastRemainString (remainArgs e a) \<noteq> []
      then applyStyles e (js '' ('' @ lastRemainString (remainArgs e a) @ js '' remain)'')
             (remain_style (styles a))
      else [])"

definition textSeg :: "env \<Rightarrow> pargs \<Rightarrow> jsstring" where
  "textSeg e a =
     (if text_str a \<noteq> []
      then [SPACE] @ applyStyles e (trim (text_str a)) (text_style (styles a))
      else [])"

text \<open>Everything that follows the spinner glyph on the line.\<close>

definition lineRest :: "env \<Rightarrow> pargs \<Rightarrow> jsstring" where
  "lineRest e a =
     [SPACE] @ braceSeg e a 0 @ barSeg e a @ braceSeg e a 1 @ pctSeg e a @ remainSeg e a
     @ textSeg e a"

text \<open>The options \<open>start\<close> stores (lines 552--571).\<close>

definition startArgs :: "env \<Rightarrow> overrides \<Rightarrow> pargs" where
  "startArgs e ov =
     (let a = mergeHashInto defaults ov;
          a = (if max_amount a = 0 then a\<lparr>max_amount := 1\<rparr> else a);
          a = (if timeStart a = 0 then a\<lparr>timeStart := timeNow e\<rparr> else a);
          a = (if \<not> color a then a\<lparr>styles := no_styles\<rparr> else a);
          a = (if \<not> unicode a then mergeHashInto a asciiOverrides else a);
          a = (case indent a of IndentNum n \<Rightarrow> a\<lparr>indent := IndentStr (space n)\<rparr> | IndentStr s \<Rightarrow> a)
      in a\<lparr>indent :=
             IndentStr (concat (map (\<lambda>c. if c = TAB then js ''    '' else [c])
                                 (indent_text (indent a))))\<rparr>)"

text \<open>The width of the top border \<open>table\<close> draws for a grid (lines 334--350), and
  the number of lines of a text.\<close>

definition tableWidth :: "env \<Rightarrow> jsstring list list \<Rightarrow> nat" where
  "tableWidth e rows =
     length (borderLine 0x250C 0x252C 0x2510 (rowsLoop (\<lambda>idy col. stringWidth e col + 2) rows []))"

definition lineCount :: "jsstring \<Rightarrow> nat" where
  "lineCount txt = Suc (count_list txt NEWLINE)"

text \<open>Two environments for the examples: stdout redirected to a file, and an 80-column
  terminal without colour support, on which chalk leaves text as it is and every code
  unit of the examples takes one column.\<close>

definition piped :: env where
  "piped =
     \<lparr>tty = False, columns = 0, stringWidth = length, chalk = (\<lambda>n s. s),
      pct_text = (\<lambda>a m. js ''0%''), getNiceRemainingTime = (\<lambda>el a m. js ''1 minute''),
      timeNow = 1000\<rparr>"

definition plain_terminal :: env where
  "plain_terminal =
     \<lparr>tty = True, columns = 80, stringWidth = length, chalk = (\<lambda>n s. s),
      pct_text = (\<lambda>a m. js ''0%''), getNiceRemainingTime = (\<lambda>el a m. js ''1 minute''),
      timeNow = 1000\<rparr>"

text \<open>\<open>cli.table(rows)\<close> without a second argument.\<close>

definition no_table_args :: table_args where
  "no_table_args =
     \<lparr>headerStyles = None, borderStyles = None, textStyles = None, tindent = None, autoFit = False\<rparr>"

text \<open>A terminal of 10 columns on which the style escapes \<open>ESC [ ... m\<close> take no
  column and every other code unit takes one, and a cell in bold.\<close>

fun visibleWidth :: "bool \<Rightarrow> jsstring \<Rightarrow> nat" where
  "visibleWidth inEscape [] = 0"
| "visibleWidth inEscape (c # cs) =
     (if inEscape then visibleWidth (c \<noteq> LOWER_M) cs
      else if c = ESC then visibleWidth True cs
      else Suc (visibleWidth False cs))"

definition ansi_terminal :: env where
  "ansi_terminal = plain_terminal\<lparr>columns := 10, stringWidth := visibleWidth False\<rparr>"


text \<open>The session that \<open>progress.start()\<close> creates on that terminal.\<close>

definition started :: progress where
  "started = start plain_terminal no_overrides idle"

section \<open>Termination of the loops\<close>

lemma indexOf_Some: "indexOf xs v = Some i \<Longrightarrow> i < length xs \<and> xs ! i = v"
  by (induction xs arbitrary: i) (auto split: if_splits)

lemma fitLoop_decreases:
  assumes "indexOf ws l = Some i" and "\<not> l < 2"
  shows "sum_list (ws[i := ws ! i - 1]) < sum_list ws"
proof -
  from assms(1) have i: "i < length ws" and l: "ws ! i = l"
    using indexOf_Some by blast+
  have "ws ! i \<le> sum_list ws"
    using i by (simp add: member_le_sum_list)
  with i l assms(2) show ?thesis
    by (simp add: sum_list_update)
qed

termination fitLoop
proof (relation "measure (\<lambda>(e, rows, avail, ws). sum_list ws)", goal_cases)
  case 1
  show ?case by simp
next
  case (2 e rows avail ws l i)
  then show ?case using fitLoop_decreases [of ws l i] by simp
qed

lemma leadingEscape_shorter:
  assumes "leadingEscape col = Some (m, rest)"
  shows "length rest < length col"
proof -
  from assms obtain e b rest0 where col: "col = e # b # rest0"
    and rest: "rest = tl (dropWhile (\<lambda>c. c \<noteq> LOWER_M) rest0)"
    by (auto simp: leadingEscape_def split: list.splits if_splits)
  have "length rest \<le> length rest0"
    unfolding rest using length_dropWhile_le [of "\<lambda>c. c \<noteq> LOWER_M" rest0] by simp
  then show ?thesis by (simp add: col)
qed

termination stripLeading
  by (relation "measure (\<lambda>(prefix, col). length col)") (auto simp: leadingEscape_shorter)

lemma trailingEscape_split:
  "trailingEscape col = Some (before, m) \<Longrightarrow> col = before @ m \<and> styleEscape m"
  by (induction col arbitrary: before) (auto split: if_splits)

lemma styleEscape_nonempty: "styleEscape m \<Longrightarrow> m \<noteq> []"
  by (auto simp: styleEscape_def)

termination stripTrailing
  apply (relation "measure (\<lambda>(col, suffix). length col)")
   apply simp
  apply (auto dest!: trailingEscape_split styleEscape_nonempty)
  done

declare fitLoop.simps [simp del] stripLeading.simps [simp del] stripTrailing.simps [simp del]

section \<open>The progress session\<close>

lemma draw_unfold:
  assumes "running p" and "tty e"
  shows "draw e p =
     p\<lparr>spinFrame := Suc (spinFrame p),
       args := remainArgs e (args p),
       out := (if quiet (args p) then out p
               else out p @ [cleanUp e (lastLine p)
                               (indent_text (indent (args p))
                                @ spinnerSeg e (args p) (spinFrame p) @ lineRest e (args p)) @ [CR]]),
       lastLine := cleanUp e (lastLine p)
                     (indent_text (indent (args p))
                      @ spinnerSeg e (args p) (spinFrame p) @ lineRest e (args p))\<rparr>"
  using assms
  unfolding draw_def Let_def lineRest_def spinnerSeg_def braceSeg_def barSeg_def pctSeg_def
    remainSeg_def textSeg_def remainArgs_def remainShown_def
  by (simp split: prod.splits)

lemma start_unfold:
  assumes "tty e"
  shows "start e ov p =
     (let p1 = draw e (p\<lparr>args := startArgs e ov, running := True, spinFrame := 0, lastLine := []\<rparr>)
      in if \<not> quiet (args p1) then p1\<lparr>out := out p1 @ [ESC # js ''[?25l'']\<rparr> else p1)"
  using assms unfolding start_def startArgs_def Let_def by simp

lemma remainArgs_fields [simp]:
  "amount (remainArgs e a) = amount a" "max_amount (remainArgs e a) = max_amount a"
  "text_str (remainArgs e a) = text_str a" "width (remainArgs e a) = width a"
  "indent (remainArgs e a) = indent a" "color (remainArgs e a) = color a"
  "unicode (remainArgs e a) = unicode a" "remain (remainArgs e a) = remain a"
  "spinner (remainArgs e a) = spinner a" "braces (remainArgs e a) = braces a"
  "filling (remainArgs e a) = filling a" "filled (remainArgs e a) = filled a"
  "styles (remainArgs e a) = styles a" "pct (remainArgs e a) = pct a"
  "quiet (remainArgs e a) = quiet a" "timeStart (remainArgs e a) = timeStart a"
  by (simp_all add: remainArgs_def)

lemma remainShown_remainArgs [simp]: "remainShown e (remainArgs e a) = remainShown e a"
  by (simp add: remainShown_def)

lemma remainArgs_idem [simp]: "remainArgs e (remainArgs e a) = remainArgs e a"
  by (simp add: remainArgs_def remainShown_def)

lemma barBody_remainArgs [simp]: "barBody e (remainArgs e a) = barBody e a"
  by (simp add: barBody_def Let_def)

lemma lineRest_remainArgs [simp]: "lineRest e (remainArgs e a) = lineRest e a"
  by (simp add: lineRest_def braceSeg_def barSeg_def pctSeg_def remainSeg_def textSeg_def)

lemma spinnerSeg_remainArgs [simp]: "spinnerSeg e (remainArgs e a) frame = spinnerSeg e a frame"
  by (simp add: spinnerSeg_def)

lemma erase_fields [simp]:
  "running (erase e p) = running p" "args (erase e p) = args p"
  "spinFrame (erase e p) = spinFrame p" "lastLine (erase e p) = lastLine p"
  by (simp_all add: erase_def)

lemma start_fields:
  assumes "tty e"
  shows "running (start e ov p)" and "args (start e ov p) = remainArgs e (startArgs e ov)"
    and "spinFrame (start e ov p) = 1"
    and "lastLine (start e ov p) =
           indent_text (indent (startArgs e ov)) @ spinnerSeg e (startArgs e ov) 0
           @ lineRest e (startArgs e ov)"
  using assms by (simp_all add: start_unfold Let_def draw_unfold cleanUp_def)

lemma ovr_simps [simp]: "ovr None a = a" "ovr (Some v) a = v"
  by (simp_all add: ovr_def)

lemma mergeHashInto_fields [simp]:
  "amount (mergeHashInto a b) = ovr (o_amount b) (amount a)"
  "max_amount (mergeHashInto a b) = ovr (o_max b) (max_amount a)"
  "text_str (mergeHashInto a b) = ovr (o_text b) (text_str a)"
  "width (mergeHashInto a b) = ovr (o_width b) (width a)"
  "indent (mergeHashInto a b) = ovr (o_indent b) (indent a)"
  "color (mergeHashInto a b) = ovr (o_color b) (color a)"
  "unicode (mergeHashInto a b) = ovr (o_unicode b) (unicode a)"
  "remain (mergeHashInto a b) = ovr (o_remain b) (remain a)"
  "spinner (mergeHashInto a b) = ovr (o_spinner b) (spinner a)"
  "braces (mergeHashInto a b) = ovr (o_braces b) (braces a)"
  "filling (mergeHashInto a b) = ovr (o_filling b) (filling a)"
  "filled (mergeHashInto a b) = ovr (o_filled b) (filled a)"
  "styles (mergeHashInto a b) = ovr (o_styles b) (styles a)"
  "pct (mergeHashInto a b) = ovr (o_pct b) (pct a)"
  "quiet (mergeHashInto a b) = ovr (o_quiet b) (quiet a)"
  "timeStart (mergeHashInto a b) = ovr (o_timeStart b) (timeStart a)"
  "lastRemainCheck (mergeHashInto a b) = ovr (o_lastRemainCheck b) (lastRemainCheck a)"
  "lastRemainString (mergeHashInto a b) = ovr (o_lastRemainString b) (lastRemainString a)"
  by (simp_all add: mergeHashInto_def)

lemma asciiOverrides_fields [simp]:
  "o_spinner asciiOverrides = Some [js ''|'', js ''/'', js ''-'', [0x5C]]"
  "o_filling asciiOverrides = Some [js '' '', js ''.'', js '':'']"
  "o_filled asciiOverrides = Some (js ''#'')"
  "o_braces asciiOverrides = Some [js ''['', js '']'']"
  by (simp_all add: asciiOverrides_def)

lemma plain_terminal_fields [simp]:
  "tty plain_terminal" "stringWidth plain_terminal = length"
  "chalk plain_terminal = (\<lambda>n s. s)" "timeNow plain_terminal = 1000"
  "columns plain_terminal = 80"
  by (simp_all add: plain_terminal_def)

lemma startArgs_plain:
  "startArgs plain_terminal no_overrides = defaults\<lparr>max_amount := 1, timeStart := 1000\<rparr>"
  by (simp add: startArgs_def Let_def mergeHashInto_def no_overrides_def defaults_def
      indent_text_def)

lemma started_fields [simp]:
  "running started" "spinFrame started = 1"
  "args started = remainArgs plain_terminal (defaults\<lparr>max_amount := 1, timeStart := 1000\<rparr>)"
  by (simp_all add: started_def start_fields startArgs_plain)

lemma concat_replicate_single: "concat (replicate k [x]) = replicate k x"
  by (induction k) simp_all

lemma length_concat_replicate: "length (concat (replicate n t)) = n * length t"
  by (induction n) simp_all



lemma nth_opt_eq: "nth_opt xs i = (if i < length xs then Some (xs ! i) else None)"
  by (induction xs i rule: nth_opt.induct) simp_all


lemma hd_cleanUp: "line \<noteq> [] \<Longrightarrow> hd (cleanUp e prev line) = hd line"
  by (simp add: cleanUp_def Let_def)

lemma startArgs_ascii:
  assumes "o_unicode ov = Some False"
  shows "spinner (startArgs e ov) = [js ''|'', js ''/'', js ''-'', [0x5C]]"
    and "braces (startArgs e ov) = [js ''['', js '']'']"
    and "filling (startArgs e ov) = [js '' '', js ''.'', js '':'']"
    and "filled (startArgs e ov) = js ''#''"
proof -
  define a1 where "a1 = mergeHashInto defaults ov"
  define a2 where "a2 = (if max_amount a1 = 0 then a1\<lparr>max_amount := 1\<rparr> else a1)"
  define a3 where "a3 = (if timeStart a2 = 0 then a2\<lparr>timeStart := timeNow e\<rparr> else a2)"
  define a4 where "a4 = (if \<not> color a3 then a3\<lparr>styles := no_styles\<rparr> else a3)"
  define a5 where "a5 = (if \<not> unicode a4 then mergeHashInto a4 asciiOverrides else a4)"
  define a6 where "a6 = (case indent a5 of IndentNum n \<Rightarrow> a5\<lparr>indent := IndentStr (space n)\<rparr>
                         | IndentStr s \<Rightarrow> a5)"
  have sa: "startArgs e ov =
      a6\<lparr>indent := IndentStr (concat (map (\<lambda>c. if c = TAB then js ''    '' else [c])
                                        (indent_text (indent a6))))\<rparr>"
    unfolding startArgs_def Let_def a6_def a5_def a4_def a3_def a2_def a1_def ..
  have "\<not> unicode a1" using assms by (simp add: a1_def)
  then have "\<not> unicode a2" by (simp add: a2_def)
  then have "\<not> unicode a3" by (simp add: a3_def)
  then have "\<not> unicode a4" by (simp add: a4_def)
  then have a5: "a5 = mergeHashInto a4 asciiOverrides" by (simp add: a5_def)
  have a6: "spinner a6 = spinner a5" "braces a6 = braces a5" "filling a6 = filling a5"
    "filled a6 = filled a5"
    by (simp_all add: a6_def split: indent_val.splits)
  show "spinner (startArgs e ov) = [js ''|'', js ''/'', js ''-'', [0x5C]]"
    and "braces (startArgs e ov) = [js ''['', js '']'']"
    and "filling (startArgs e ov) = [js '' '', js ''.'', js '':'']"
    and "filled (startArgs e ov) = js ''#''"
    by (simp_all add: sa a6 a5)
qed

subsection \<open>Calls outside a running session\<close>

text \<open>
  C5.  On a non-interactive terminal \<open>start\<close> returns the session as it found it, so
  \<open>running\<close> is not set and nothing is written.  Whenever the session is not running
  or the terminal is not interactive, \<open>update\<close>, \<open>draw\<close>, \<open>erase\<close> and \<open>end\<close> return the
  session unchanged, output included; none of them has a failing branch.
\<close>

theorem noninteractive_noop:
  "(\<not> tty e \<longrightarrow> start e ov p = p) \<and>
   (\<not> running p \<or> \<not> tty e \<longrightarrow>
      update e u p = p \<and> draw e p = p \<and> erase e p = p \<and> end_session e er p = p)"
  by (auto simp: start_def update_def draw_def erase_def end_session_def)

theorem noninteractive_noop_witness:
  "\<not> tty piped \<and> start piped no_overrides idle = idle \<and>
   update piped (Num (1/2)) idle = idle \<and> draw piped idle = idle \<and>
   erase piped idle = idle \<and> end_session piped None idle = idle"
  using noninteractive_noop [of piped no_overrides idle "Num (1/2)" None]
  by (simp add: piped_def)

subsection \<open>The bar body\<close>



subsection \<open>The indeterminate style\<close>

text \<open>
  C3.  In a running session on a terminal, \<open>draw\<close> styles the bar body with the
  indeterminate style when \<open>amount\<close> equals \<open>max\<close> and with the bar style when it does
  not; and when \<open>amount\<close> equals \<open>max\<close> the line has no remaining-time segment: the
  percentage is followed by the text directly, whatever \<open>remain\<close> is.
\<close>

theorem indeterminate_iff_amount_is_max:
  assumes "running p" and "tty e"
  shows "(amount (args p) = max_amount (args p) \<longrightarrow>
            lastLine (draw e p) =
              cleanUp e (lastLine p)
                (indent_text (indent (args p)) @ spinnerSeg e (args p) (spinFrame p) @ [SPACE]
                 @ braceSeg e (args p) 0
                 @ applyStyles e (barBody e (args p)) (indeterminate_style (styles (args p)))
                 @ braceSeg e (args p) 1 @ pctSeg e (args p) @ textSeg e (args p))) \<and>
         (amount (args p) \<noteq> max_amount (args p) \<longrightarrow>
            lastLine (draw e p) =
              cleanUp e (lastLine p)
                (indent_text (indent (args p)) @ spinnerSeg e (args p) (spinFrame p) @ [SPACE]
                 @ braceSeg e (args p) 0
                 @ applyStyles e (barBody e (args p)) (bar_style (styles (args p)))
                 @ braceSeg e (args p) 1 @ pctSeg e (args p) @ remainSeg e (args p)
                 @ textSeg e (args p)))"
  using assms
  by (simp add: draw_unfold lineRest_def barSeg_def remainSeg_def remainShown_def)

theorem indeterminate_iff_amount_is_max_witness:
  "running (update plain_terminal (Num 1) started) \<and> tty plain_terminal \<and>
   amount (args (update plain_terminal (Num 1) started)) =
     max_amount (args (update plain_terminal (Num 1) started)) \<and>
   remain (args (update plain_terminal (Num 1) started)) \<and>
   lastLine (draw plain_terminal (update plain_terminal (Num 1) started)) =
     cleanUp plain_terminal (lastLine (update plain_terminal (Num 1) started))
       (indent_text (indent (args (update plain_terminal (Num 1) started)))
        @ spinnerSeg plain_terminal (args (update plain_terminal (Num 1) started)) 1 @ [SPACE]
        @ braceSeg plain_terminal (args (update plain_terminal (Num 1) started)) 0
        @ applyStyles plain_terminal
            (barBody plain_terminal (args (update plain_terminal (Num 1) started)))
            (Some [Named ''gray''])
        @ braceSeg plain_terminal (args (update plain_terminal (Num 1) started)) 1
        @ pctSeg plain_terminal (args (update plain_terminal (Num 1) started))
        @ textSeg plain_terminal (args (update plain_terminal (Num 1) started)))"
  using indeterminate_iff_amount_is_max [of "update plain_terminal (Num 1) started" plain_terminal]
  by (simp add: update_def Let_def defaults_def)

subsection \<open>Clamping in update\<close>




subsection \<open>Erase, then draw\<close>

text \<open>
  C7, as the code has it.  \<open>erase\<close> changes nothing but the output, so the \<open>draw\<close> that
  follows it renders what the next \<open>draw\<close> would have rendered anyway: the line of the
  previous \<open>draw\<close> with the spinner advanced by one frame, every other segment being
  the same, with the same options stored.  If appended spaces count one column each, the
  new line is at least as wide as the previous one, so nothing of it stays visible.
\<close>

theorem erase_then_draw:
  assumes "running p" and "tty e"
    and "\<forall>s k. stringWidth e (s @ replicate k SPACE) = stringWidth e s + k"
  shows "lastLine (draw e p) =
           cleanUp e (lastLine p)
             (indent_text (indent (args p)) @ spinnerSeg e (args p) (spinFrame p)
              @ lineRest e (args p)) \<and>
         lastLine (draw e (erase e (draw e p))) =
           cleanUp e (lastLine (draw e p))
             (indent_text (indent (args p)) @ spinnerSeg e (args p) (Suc (spinFrame p))
              @ lineRest e (args p)) \<and>
         args (draw e (erase e (draw e p))) = args (draw e p) \<and>
         stringWidth e (lastLine (draw e p))
           \<le> stringWidth e (lastLine (draw e (erase e (draw e p))))"
proof -
  let ?p1 = "draw e p"
  have r1: "running ?p1" using assms by (simp add: draw_unfold)
  have r2: "running (erase e ?p1)" using r1 by simp
  have l1: "lastLine ?p1 = cleanUp e (lastLine p)
      (indent_text (indent (args p)) @ spinnerSeg e (args p) (spinFrame p) @ lineRest e (args p))"
    using assms by (simp add: draw_unfold)
  have a1: "args ?p1 = remainArgs e (args p)" and f1: "spinFrame ?p1 = Suc (spinFrame p)"
    using assms by (simp_all add: draw_unfold)
  have l2: "lastLine (draw e (erase e ?p1)) =
      cleanUp e (lastLine ?p1)
        (indent_text (indent (args p)) @ spinnerSeg e (args p) (Suc (spinFrame p))
         @ lineRest e (args p))"
    using r2 assms(2) by (simp add: draw_unfold [of "erase e ?p1"] a1 f1)
  have a2: "args (draw e (erase e ?p1)) = args ?p1"
    using r2 assms(2) by (simp add: draw_unfold [of "erase e ?p1"] a1)
  have ne: "lastLine ?p1 \<noteq> []"
    by (simp add: l1 cleanUp_def Let_def lineRest_def)
  have w: "stringWidth e prev \<le> stringWidth e (cleanUp e prev line)" if "prev \<noteq> []" for prev line
    using assms(3) that by (auto simp: cleanUp_def Let_def space_def repeat_def)
  show ?thesis using l1 l2 a2 w [OF ne] by simp
qed

theorem erase_then_draw_witness:
  "running started \<and> tty plain_terminal \<and>
   (\<forall>s k. stringWidth plain_terminal (s @ replicate k SPACE) = stringWidth plain_terminal s + k) \<and>
   hd (lastLine (draw plain_terminal started)) = 0x2819 \<and>
   hd (lastLine (draw plain_terminal (erase plain_terminal (draw plain_terminal started)))) = 0x2839 \<and>
   args (draw plain_terminal (erase plain_terminal (draw plain_terminal started))) =
     args (draw plain_terminal started)"
  using erase_then_draw [of started plain_terminal]
  by (simp add: hd_cleanUp defaults_def indent_text_def spinnerSeg_def applyStyles_def
      glyph_at_def nth_opt_eq)

text \<open>With the default spinner the line drawn after the erase differs from the line
  before it: the first glyph is the next spinner frame.\<close>

theorem erase_then_draw_differs:
  "lastLine (draw plain_terminal (erase plain_terminal started)) \<noteq> lastLine started"
proof -
  have "hd (lastLine started) = 0x280B"
    by (simp add: started_def start_fields startArgs_plain defaults_def indent_text_def
        spinnerSeg_def applyStyles_def glyph_at_def nth_opt_eq)
  moreover have "hd (lastLine (draw plain_terminal (erase plain_terminal started))) = 0x2819"
    by (simp add: draw_unfold hd_cleanUp defaults_def indent_text_def spinnerSeg_def
        applyStyles_def glyph_at_def nth_opt_eq)
  ultimately show ?thesis by auto
qed

subsection \<open>ASCII mode\<close>

text \<open>
  C8, as the code has it.  When \<open>start\<close> is called with \<open>unicode\<close> false, the stored
  spinner, braces, filling sequence and full-fill glyph are the plain-ASCII ones,
  whatever the caller supplied for them: the ASCII set is merged after the caller's
  options.
\<close>

theorem ascii_mode_glyphs:
  assumes "tty e" and "o_unicode ov = Some False"
  shows "spinner (args (start e ov p)) = [js ''|'', js ''/'', js ''-'', [0x5C]] \<and>
         braces (args (start e ov p)) = [js ''['', js '']''] \<and>
         filling (args (start e ov p)) = [js '' '', js ''.'', js '':''] \<and>
         filled (args (start e ov p)) = js ''#''"
  using assms by (simp add: start_fields startArgs_ascii)

theorem ascii_mode_glyphs_witness:
  "tty plain_terminal \<and> o_unicode (no_overrides\<lparr>o_unicode := Some False\<rparr>) = Some False \<and>
   spinner (args (start plain_terminal (no_overrides\<lparr>o_unicode := Some False\<rparr>) idle)) =
     [[0x7C], [0x2F], [0x2D], [0x5C]] \<and>
   braces (args (start plain_terminal (no_overrides\<lparr>o_unicode := Some False\<rparr>) idle)) =
     [[0x5B], [0x5D]] \<and>
   filling (args (start plain_terminal (no_overrides\<lparr>o_unicode := Some False\<rparr>) idle)) =
     [[0x20], [0x2E], [0x3A]] \<and>
   filled (args (start plain_terminal (no_overrides\<lparr>o_unicode := Some False\<rparr>) idle)) = [0x23]"
  using ascii_mode_glyphs [of plain_terminal "no_overrides\<lparr>o_unicode := Some False\<rparr>" idle]
  by (simp add: js_def)

text \<open>A full-fill glyph supplied together with \<open>unicode: false\<close> is not kept.\<close>

theorem ascii_mode_replaces_supplied_glyph:
  "filled (args (start plain_terminal
      (no_overrides\<lparr>o_unicode := Some False, o_filled := Some (js ''='')\<rparr>) idle)) = js ''#'' \<and>
   js ''#'' \<noteq> js ''=''"
  by (simp add: start_fields startArgs_ascii js_def)

section \<open>The table\<close>

subsection \<open>Column widths and the shrinking loop\<close>

lemma length_put: "length (put ws i v) = (if i < length ws then length ws else Suc (length ws))"
  by (simp add: put_def)

lemma nth_put:
  "i \<le> length ws \<Longrightarrow> j \<le> length ws \<Longrightarrow> put ws i v ! j = (if j = i then v else ws ! j)"
  by (auto simp: put_def nth_append)

lemma or0_nth_opt: "or0 (nth_opt ws i) = (if i < length ws then ws ! i else 0)"
  by (simp add: or0_def nth_opt_eq)

lemma colsLoop_length:
  "idy \<le> length ws \<Longrightarrow> length (colsLoop f idy cols ws) = max (length ws) (idy + length cols)"
  by (induction cols arbitrary: idy ws) (auto simp: length_put)






lemma length_borderLoop:
  "idx + length ws = n \<Longrightarrow>
     length (borderLoop joint n idx ws line) = length line + sum_list ws + (length ws - 1)"
proof (induction ws arbitrary: idx line)
  case Nil
  then show ?case by simp
next
  case (Cons num nums)
  have "idx + Suc (length nums) = n" using Cons.prems by simp
  then have j: "(int idx < int n - 1) = (nums \<noteq> [])" by auto
  have "Suc idx + length nums = n" using Cons.prems by simp
  from Cons.IH [OF this]
  have IH: "length (borderLoop joint n (Suc idx) nums L) = length L + sum_list nums + (length nums - 1)"
    for L .
  have "0 < length nums" if "nums \<noteq> []" using that by simp
  then show ?case
    by (auto simp: Let_def j IH repeat_def length_concat_replicate)
qed

lemma length_borderLine:
  "length (borderLine l j r ws) = 2 + sum_list ws + (length ws - 1)"
  by (simp add: borderLine_def length_borderLoop)




lemma put_grows:
  assumes "idy \<le> length ws" and "i < length ws"
  shows "i < length (put ws idy (max (or0 (nth_opt ws idy)) v))"
    and "ws ! i \<le> put ws idy (max (or0 (nth_opt ws idy)) v) ! i"
  using assms by (auto simp: put_def or0_nth_opt nth_list_update nth_append)

lemma colsLoop_grows:
  "idy \<le> length ws \<Longrightarrow> i < length ws \<Longrightarrow>
     i < length (colsLoop f idy cols ws) \<and> ws ! i \<le> colsLoop f idy cols ws ! i"
proof (induction cols arbitrary: idy ws)
  case Nil
  then show ?case by simp
next
  case (Cons col cols)
  let ?ws1 = "put ws idy (max (or0 (nth_opt ws idy)) (f idy col))"
  have l1: "Suc idy \<le> length ?ws1" using Cons.prems(1) by (simp add: length_put)
  have i1: "i < length ?ws1" and v1: "ws ! i \<le> ?ws1 ! i"
    using Cons.prems by (rule put_grows)+
  from Cons.IH [OF l1 i1]
  have "i < length (colsLoop f (Suc idy) cols ?ws1)"
    and "?ws1 ! i \<le> colsLoop f (Suc idy) cols ?ws1 ! i" by blast+
  with v1 show ?case by (simp add: le_trans [OF v1])
qed

lemma rowsLoop_grows:
  "i < length ws \<Longrightarrow> i < length (rowsLoop f rows ws) \<and> ws ! i \<le> rowsLoop f rows ws ! i"
proof (induction rows arbitrary: ws)
  case Nil
  then show ?case by simp
next
  case (Cons cols rows)
  have "i < length (colsLoop f 0 cols ws) \<and> ws ! i \<le> colsLoop f 0 cols ws ! i"
    using Cons.prems by (intro colsLoop_grows) simp_all
  then have i1: "i < length (colsLoop f 0 cols ws)" and v1: "ws ! i \<le> colsLoop f 0 cols ws ! i"
    by blast+
  from Cons.IH [OF i1] show ?case by (simp add: le_trans [OF v1])
qed

lemma colsLoop_covers:
  "idy \<le> length ws \<Longrightarrow> j < length cols \<Longrightarrow>
     idy + j < length (colsLoop f idy cols ws) \<and>
     f (idy + j) (cols ! j) \<le> colsLoop f idy cols ws ! (idy + j)"
proof (induction cols arbitrary: idy ws j)
  case Nil
  then show ?case by simp
next
  case (Cons col cols)
  let ?ws1 = "put ws idy (max (or0 (nth_opt ws idy)) (f idy col))"
  have l1: "Suc idy \<le> length ?ws1" using Cons.prems(1) by (simp add: length_put)
  show ?case
  proof (cases j)
    case 0
    have "?ws1 ! idy = max (or0 (nth_opt ws idy)) (f idy col)"
      using Cons.prems(1) by (simp add: nth_put)
    then have v: "f idy col \<le> ?ws1 ! idy" by simp
    have "idy < length ?ws1" using l1 by simp
    from colsLoop_grows [OF l1 this, of f cols] show ?thesis
      using 0 by (simp add: le_trans [OF v])
  next
    case (Suc j')
    then have "j' < length cols" using Cons.prems(2) by simp
    from Cons.IH [OF l1 this] show ?thesis using Suc by simp
  qed
qed

lemma rowsLoop_covers:
  "cols \<in> set rows \<Longrightarrow> j < length cols \<Longrightarrow>
     j < length (rowsLoop f rows ws) \<and> f j (cols ! j) \<le> rowsLoop f rows ws ! j"
proof (induction rows arbitrary: ws)
  case Nil
  then show ?case by simp
next
  case (Cons r rows)
  show ?case
  proof (cases "cols = r")
    case True
    have "0 + j < length (colsLoop f 0 r ws) \<and> f (0 + j) (r ! j) \<le> colsLoop f 0 r ws ! (0 + j)"
      using Cons.prems(2) True by (intro colsLoop_covers) simp_all
    then have j1: "j < length (colsLoop f 0 r ws)" and v: "f j (r ! j) \<le> colsLoop f 0 r ws ! j"
      by simp_all
    from rowsLoop_grows [OF j1, of f rows] show ?thesis
      using True by (simp add: le_trans [OF v])
  next
    case False
    then have "cols \<in> set rows" using Cons.prems(1) by simp
    from Cons.IH [OF this Cons.prems(2)] show ?thesis by simp
  qed
qed

lemma fold_max_ge: "x \<in> set xs \<Longrightarrow> x \<le> fold max xs (a::nat)"
proof (induction xs arbitrary: a)
  case Nil
  then show ?case by simp
next
  case (Cons y ys)
  have "a \<le> fold max ys a" for a :: nat and ys
    by (induction ys arbitrary: a) (auto intro: le_trans [OF max.cobounded2] simp: max.coboundedI1)
  then show ?case using Cons by (auto intro: le_trans [OF max.cobounded1])
qed

lemma fold_max_in: "fold max xs (a::nat) \<in> insert a (set xs)"
  by (induction xs arbitrary: a) (auto simp: max_def)

lemma indexOf_None: "indexOf xs v = None \<longleftrightarrow> v \<notin> set xs"
  by (induction xs) auto

lemma fitLoop_result:
  "case fitLoop e rows av ws of
     Fitted ws' \<Rightarrow>
       int (measureTableWidth e rows ws') \<le> av \<and> length ws' = length ws \<and>
       (\<forall>i<length ws. ws' ! i \<le> ws ! i \<and> (ws' ! i = ws ! i \<or> 1 \<le> ws' ! i))
   | Braked ws' \<Rightarrow>
       av < int (measureTableWidth e rows ws') \<and> (\<forall>w\<in>set ws'. w \<le> 1) \<and> length ws' = length ws \<and>
       (\<forall>i<length ws. ws' ! i \<le> ws ! i \<and> (ws' ! i = ws ! i \<or> 1 \<le> ws' ! i))"
proof (induction e rows av ws rule: fitLoop.induct)
  case (1 e rows av ws)
  show ?case
  proof (cases "int (measureTableWidth e rows ws) > av")
    case False
    then show ?thesis by (simp add: fitLoop.simps [of e rows av ws])
  next
    case over: True
    show ?thesis
    proof (cases "math_max ws")
      case None
      then have "ws = []" by (simp add: math_max_def split: if_splits)
      then show ?thesis using over None by (simp add: fitLoop.simps [of e rows av "[]"])
    next
      case (Some l)
      then have ne: "ws \<noteq> []" and l: "l = fold max ws 0"
        by (auto simp: math_max_def split: if_splits)
      show ?thesis
      proof (cases "l < 2")
        case True
        have "w \<le> 1" if "w \<in> set ws" for w
          using fold_max_ge [OF that, of 0] True l by simp
        then have "\<forall>w\<in>set ws. w \<le> 1" by blast
        then show ?thesis using over Some True by (simp add: fitLoop.simps [of e rows av ws])
      next
        case big: False
        have "l \<in> set ws" using fold_max_in [of ws 0] l big by auto
        then obtain i where i: "indexOf ws l = Some i"
          using indexOf_None [of ws l] by (cases "indexOf ws l") auto
        then have il: "i < length ws" and wi: "ws ! i = l" using indexOf_Some by blast+
        let ?ws1 = "ws[i := ws ! i - 1]"
        have unf: "fitLoop e rows av ws = fitLoop e rows av ?ws1"
          using over Some big i by (simp add: fitLoop.simps [of e rows av ws])
        have lt: "\<not> l < 2" using big .
        note IH = "1.IH" [OF over Some lt i]
        have step: "\<forall>k<length ws. ?ws1 ! k \<le> ws ! k \<and> (?ws1 ! k = ws ! k \<or> 1 \<le> ?ws1 ! k)"
          using il wi big by (auto simp: nth_list_update)
        show ?thesis
        proof (cases "fitLoop e rows av ?ws1")
          case (Fitted ws')
          with IH have a: "int (measureTableWidth e rows ws') \<le> av" "length ws' = length ws"
            and b: "\<forall>k<length ws. ws' ! k \<le> ?ws1 ! k \<and> (ws' ! k = ?ws1 ! k \<or> 1 \<le> ws' ! k)"
            by simp_all
          have "ws' ! k \<le> ws ! k \<and> (ws' ! k = ws ! k \<or> 1 \<le> ws' ! k)" if "k < length ws" for k
            using b [rule_format, OF that] step [rule_format, OF that] by linarith
          then have "\<forall>k<length ws. ws' ! k \<le> ws ! k \<and> (ws' ! k = ws ! k \<or> 1 \<le> ws' ! k)"
            by blast
          with a show ?thesis unfolding unf Fitted by simp
        next
          case (Braked ws')
          with IH have a: "av < int (measureTableWidth e rows ws')" "\<forall>w\<in>set ws'. w \<le> 1"
            "length ws' = length ws"
            and b: "\<forall>k<length ws. ws' ! k \<le> ?ws1 ! k \<and> (ws' ! k = ?ws1 ! k \<or> 1 \<le> ws' ! k)"
            by simp_all
          have "ws' ! k \<le> ws ! k \<and> (ws' ! k = ws ! k \<or> 1 \<le> ws' ! k)" if "k < length ws" for k
            using b [rule_format, OF that] step [rule_format, OF that] by linarith
          then have "\<forall>k<length ws. ws' ! k \<le> ws ! k \<and> (ws' ! k = ws ! k \<or> 1 \<le> ws' ! k)"
            by blast
          with a show ?thesis unfolding unf Braked by simp
        qed
      qed
    qed
  qed
qed

lemma pruneCols_length [simp]: "length (pruneCols e mw idy cols) = length cols"
  by (induction cols arbitrary: idy) simp_all

lemma pruneCols_nth:
  "i < length cols \<Longrightarrow> pruneCols e mw idy cols ! i = pruneCell e mw (idy + i) (cols ! i)"
  by (induction cols arbitrary: idy i) (auto simp: nth_Cons split: nat.splits)





lemma naturalWidths_covers:
  assumes "cols \<in> set rows" and "j < length cols"
  shows "j < length (naturalWidths e rows)" and "stringWidth e (cols ! j) \<le> naturalWidths e rows ! j"
  using rowsLoop_covers [OF assms, of "\<lambda>idy col. stringWidth e col" "[]"]
  by (simp_all add: naturalWidths_def)


subsection \<open>Truncation of a cell\<close>




lemma trailingEscape_None_iff:
  "trailingEscape col = None \<longleftrightarrow> \<not> (\<exists>before m. styleEscape m \<and> col = before @ m)"
proof (induction col)
  case Nil
  then show ?case by (auto simp: styleEscape_def)
next
  case (Cons c cs)
  have "(\<exists>before m. styleEscape m \<and> c # cs = before @ m) \<longleftrightarrow>
        styleEscape (c # cs) \<or> (\<exists>before m. styleEscape m \<and> cs = before @ m)"
    (is "?L \<longleftrightarrow> ?R")
  proof
    assume ?L
    then obtain before m where sm: "styleEscape m" and eq: "c # cs = before @ m" by blast
    show ?R
    proof (cases before)
      case Nil
      then show ?thesis using sm eq by simp
    next
      case (Cons b bs)
      then have "cs = bs @ m" using eq by simp
      then show ?thesis using sm by blast
    qed
  next
    assume ?R
    then show ?L
    proof
      assume "styleEscape (c # cs)"
      then have "styleEscape (c # cs) \<and> c # cs = [] @ (c # cs)" by simp
      then show ?L by blast
    next
      assume "\<exists>before m. styleEscape m \<and> cs = before @ m"
      then obtain before m where "styleEscape m" "cs = before @ m" by blast
      then have "styleEscape m \<and> c # cs = (c # before) @ m" by simp
      then show ?L by blast
    qed
  qed
  then show ?case using Cons.IH by auto
qed





subsection \<open>Rules for running the loops on examples\<close>

lemma styleEscape_hd: "styleEscape s \<Longrightarrow> hd s = ESC \<and> s \<noteq> []"
  by (auto simp: styleEscape_def split: list.splits)

lemma trailingEscape_plain: "ESC \<notin> set col \<Longrightarrow> trailingEscape col = None"
proof -
  assume a: "ESC \<notin> set col"
  have "\<not> (\<exists>before m. styleEscape m \<and> col = before @ m)"
  proof
    assume "\<exists>before m. styleEscape m \<and> col = before @ m"
    then obtain before m where m: "styleEscape m" and c: "col = before @ m" by blast
    from styleEscape_hd [OF m] have "ESC \<in> set m" by (cases m) auto
    with a c show False by simp
  qed
  then show ?thesis by (simp add: trailingEscape_None_iff)
qed

lemma leadingEscape_plain: "ESC \<notin> set col \<Longrightarrow> leadingEscape col = None"
  by (auto simp: leadingEscape_def split: list.splits)

lemma truncateCell_plain:
  "ESC \<notin> set col \<Longrightarrow> truncateCell col w = take (w - 1) col @ [ELLIPSIS]"
  by (simp add: truncateCell_def stripLeading.simps [of "[]" col] stripTrailing.simps [of col "[]"]
      leadingEscape_plain trailingEscape_plain nat_diff_distrib')


lemma measureTableWidth_eq:
  "measureTableWidth e rows mw =
     (let ws = rowsLoop (\<lambda>idy col. (case nth_opt mw idy of None \<Rightarrow> stringWidth e col
                                     | Some w \<Rightarrow> min (stringWidth e col) w) + 2) rows []
      in 2 + sum_list ws + (length ws - 1))"
  by (simp add: measureTableWidth_def length_borderLine Let_def)

lemma tableWidth_eq:
  "tableWidth e rows =
     (let ws = rowsLoop (\<lambda>idy col. stringWidth e col + 2) rows []
      in 2 + sum_list ws + (length ws - 1))"
  by (simp add: tableWidth_def length_borderLine Let_def)

lemma length_js [simp]: "length (js s) = length s"
  by (simp add: js_def)

lemmas eval_table = measureTableWidth_eq tableWidth_eq naturalWidths_def Let_def put_def or0_def
  nth_opt_eq math_max_def ESC_def ELLIPSIS_def cli_width_def pruneCell_def






lemma fitLoop_fits:
  "\<not> av < int (measureTableWidth e rows ws) \<Longrightarrow> fitLoop e rows av ws = Fitted ws"
  by (simp add: fitLoop.simps [of e rows av ws])

lemma fitLoop_shrink:
  "av < int (measureTableWidth e rows ws) \<Longrightarrow> math_max ws \<noteq> None \<Longrightarrow>
   \<not> the (math_max ws) < 2 \<Longrightarrow> indexOf ws (the (math_max ws)) \<noteq> None \<Longrightarrow>
   fitLoop e rows av ws =
     fitLoop e rows av
       (ws[the (indexOf ws (the (math_max ws))) := ws ! the (indexOf ws (the (math_max ws))) - 1])"
  by (auto simp: fitLoop.simps [of e rows av ws])

lemma fitLoop_brake:
  "av < int (measureTableWidth e rows ws) \<Longrightarrow> math_max ws \<noteq> None \<Longrightarrow>
   the (math_max ws) < 2 \<Longrightarrow> fitLoop e rows av ws = Braked ws"
  by (auto simp: fitLoop.simps [of e rows av ws])





lemmas eval_fit = fitLoop_fits fitLoop_shrink fitLoop_brake

lemma fit_id_jhuckaby:
  "fitLoop (plain_terminal\<lparr>columns := 9\<rparr>) [[js ''id''], [js ''jhuckaby'']] 9 [8] = Fitted [5]"
  by (simp add: eval_fit eval_table)

subsection \<open>Auto-fit\<close>




subsection \<open>Truncation\<close>

lemma autoFit_cell:
  assumes avail: "1 \<le> cli_width e - int (stringWidth e ind) * 2"
    and fit: "fitLoop e rows (cli_width e - int (stringWidth e ind) * 2) (naturalWidths e rows) = Fitted ws"
    and r: "r < length rows" and i: "i < length (rows ! r)"
  shows "i < length ws" and "autoFitTableRows e rows ind ! r ! i = pruneCell e ws i (rows ! r ! i)"
proof -
  from fitLoop_result [of e rows "cli_width e - int (stringWidth e ind) * 2" "naturalWidths e rows"] fit
  have len: "length ws = length (naturalWidths e rows)" by simp
  have "rows ! r \<in> set rows" using r by simp
  from naturalWidths_covers(1) [OF this i] len show "i < length ws" by simp
  have "autoFitTableRows e rows ind = map (pruneCols e ws 0) rows"
    using avail fit by (simp add: autoFitTableRows_def Let_def)
  then show "autoFitTableRows e rows ind ! r ! i = pruneCell e ws i (rows ! r ! i)"
    using r i by (simp add: pruneCols_nth)
qed





lemma ansi_terminal_fields [simp]:
  "tty ansi_terminal" "columns ansi_terminal = 10" "stringWidth ansi_terminal = visibleWidth False"
  by (simp_all add: ansi_terminal_def)





subsection \<open>Rendering\<close>

lemma applyStyles_width:
  assumes "\<forall>n s. stringWidth e (chalk e n s) = stringWidth e s"
  shows "stringWidth e (applyStyles e s (Some [Named a])) = stringWidth e s"
    and "stringWidth e (applyStyles e s (Some [Named a, Named b])) = stringWidth e s"
  using assms by (simp_all add: applyStyles_def)

lemma borderLine_two:
  "borderLine l j r [6, 5] = [l] @ replicate 6 HLINE @ [j] @ replicate 5 HLINE @ [r]"
  by (simp add: borderLine_def repeat_def concat_replicate_single)

lemma table_name_age_lines:
  assumes ascii: "\<forall>s. (\<forall>c\<in>set s. 0x20 \<le> c \<and> c \<le> 0x7E) \<longrightarrow> stringWidth e s = length s"
    and styled: "\<forall>n s. stringWidth e (chalk e n s) = stringWidth e s"
  shows "table e [[js ''Name'', js ''Age''], [js ''Al'', js ''9'']] no_table_args =
     Inr (join [NEWLINE]
       [applyStyles e ([0x250C] @ replicate 6 HLINE @ [0x252C] @ replicate 5 HLINE @ [0x2510])
          (Some [Named ''gray'']),
        applyStyles e [VLINE] (Some [Named ''gray''])
        @ applyStyles e (js '' Name '') (Some [Named ''bold'', Named ''yellow''])
        @ applyStyles e [VLINE] (Some [Named ''gray''])
        @ applyStyles e (js '' Age '') (Some [Named ''bold'', Named ''yellow''])
        @ applyStyles e [VLINE] (Some [Named ''gray'']),
        applyStyles e ([0x251C] @ replicate 6 HLINE @ [0x253C] @ replicate 5 HLINE @ [0x2524])
          (Some [Named ''gray'']),
        applyStyles e [VLINE] (Some [Named ''gray''])
        @ applyStyles e (js '' Al '') (Some [Named ''cyan'']) @ js ''  ''
        @ applyStyles e [VLINE] (Some [Named ''gray''])
        @ applyStyles e (js '' 9 '') (Some [Named ''cyan'']) @ js ''  ''
        @ applyStyles e [VLINE] (Some [Named ''gray'']),
        applyStyles e ([0x2514] @ replicate 6 HLINE @ [0x2534] @ replicate 5 HLINE @ [0x2518])
          (Some [Named ''gray''])],
       [[js ''Al'', js ''9'']])"
proof -
  let ?B = "\<lambda>s. applyStyles e s (Some [Named ''gray''])"
  let ?H = "\<lambda>s. applyStyles e s (Some [Named ''bold'', Named ''yellow''])"
  let ?T = "\<lambda>s. applyStyles e s (Some [Named ''cyan''])"
  have sp: "SPACE # js ''Name'' @ [SPACE] = js '' Name ''" "SPACE # js ''Age'' @ [SPACE] = js '' Age ''"
    "SPACE # js ''Al'' @ [SPACE] = js '' Al ''" "SPACE # js ''9'' @ [SPACE] = js '' 9 ''"
    by (simp_all add: js_def SPACE_def)
  have w: "stringWidth e (js ''Name'') = 4" "stringWidth e (js ''Age'') = 3"
    "stringWidth e (js ''Al'') = 2" "stringWidth e (js ''9'') = 1"
    "stringWidth e (js '' Name '') = 6" "stringWidth e (js '' Age '') = 5"
    "stringWidth e (js '' Al '') = 4" "stringWidth e (js '' 9 '') = 3"
    by (simp_all add: ascii js_def)
  have cols: "rowsLoop (\<lambda>idy col. stringWidth e col + 2)
      [[js ''Name'', js ''Age''], [js ''Al'', js ''9'']] [] = [6, 5]"
    by (simp add: w put_def or0_def nth_opt_eq)
  have two: "space 2 = js ''  ''" and zero: "space 0 = []"
    by (simp_all add: space_def repeat_def js_def SPACE_def eval_nat_numeral)
  have hdr: "cellsLoop e [Named ''bold'', Named ''yellow''] [Named ''gray''] [6, 5] 0
      [js ''Name'', js ''Age''] L =
      L @ ?H (js '' Name '') @ ?B [VLINE] @ ?H (js '' Age '') @ ?B [VLINE]" for L
    by (simp add: Let_def sp nth_opt_eq pad_def applyStyles_width [OF styled] w zero)
  have bdy: "cellsLoop e [Named ''cyan''] [Named ''gray''] [6, 5] 0 [js ''Al'', js ''9''] L =
      L @ ?T (js '' Al '') @ js ''  '' @ ?B [VLINE] @ ?T (js '' 9 '') @ js ''  '' @ ?B [VLINE]" for L
    by (simp add: Let_def sp nth_opt_eq pad_def applyStyles_width [OF styled] w two)
  have na: "autoFit no_table_args = False" "headerStyles no_table_args = None"
    "borderStyles no_table_args = None" "textStyles no_table_args = None"
    "tableIndent no_table_args = []"
    by (simp_all add: no_table_args_def tableIndent_def)
  show ?thesis
    unfolding table_def Let_def na if_False option.case cols list.case list.map hdr bdy
      borderLine_two
    by simp
qed


text \<open>
  C9, as the code has it.  On a terminal where printable ASCII takes one column per code
  unit and chalk styles add no width, \<open>table([["Name","Age"],["Al","9"]])\<close> renders
  five lines joined by newlines: the top border, the header row, the divider, one body
  row and the bottom border, with the box-drawing glyphs, columns 6 and 5 wide, and the
  default styles.
\<close>

theorem table_example:
  assumes "\<forall>s. (\<forall>c\<in>set s. 0x20 \<le> c \<and> c \<le> 0x7E) \<longrightarrow> stringWidth e s = length s"
    and "\<forall>n s. stringWidth e (chalk e n s) = stringWidth e s"
  shows "table e [[js ''Name'', js ''Age''], [js ''Al'', js ''9'']] no_table_args =
     Inr (join [NEWLINE]
       [applyStyles e ([0x250C] @ replicate 6 HLINE @ [0x252C] @ replicate 5 HLINE @ [0x2510])
          (Some [Named ''gray'']),
        applyStyles e [VLINE] (Some [Named ''gray''])
        @ applyStyles e (js '' Name '') (Some [Named ''bold'', Named ''yellow''])
        @ applyStyles e [VLINE] (Some [Named ''gray''])
        @ applyStyles e (js '' Age '') (Some [Named ''bold'', Named ''yellow''])
        @ applyStyles e [VLINE] (Some [Named ''gray'']),
        applyStyles e ([0x251C] @ replicate 6 HLINE @ [0x253C] @ replicate 5 HLINE @ [0x2524])
          (Some [Named ''gray'']),
        applyStyles e [VLINE] (Some [Named ''gray''])
        @ applyStyles e (js '' Al '') (Some [Named ''cyan'']) @ js ''  ''
        @ applyStyles e [VLINE] (Some [Named ''gray''])
        @ applyStyles e (js '' 9 '') (Some [Named ''cyan'']) @ js ''  ''
        @ applyStyles e [VLINE] (Some [Named ''gray'']),
        applyStyles e ([0x2514] @ replicate 6 HLINE @ [0x2534] @ replicate 5 HLINE @ [0x2518])
          (Some [Named ''gray''])],
       [[js ''Al'', js ''9'']])"
  using assms by (rule table_name_age_lines)

theorem table_example_witness:
  "table plain_terminal [[js ''Name'', js ''Age''], [js ''Al'', js ''9'']] no_table_args =
     Inr (join [NEWLINE]
       [[0x250C] @ replicate 6 HLINE @ [0x252C] @ replicate 5 HLINE @ [0x2510],
        [VLINE] @ js '' Name '' @ [VLINE] @ js '' Age '' @ [VLINE],
        [0x251C] @ replicate 6 HLINE @ [0x253C] @ replicate 5 HLINE @ [0x2524],
        [VLINE] @ js '' Al   '' @ [VLINE] @ js '' 9   '' @ [VLINE],
        [0x2514] @ replicate 6 HLINE @ [0x2534] @ replicate 5 HLINE @ [0x2518]],
       [[js ''Al'', js ''9'']])"
  using table_example [of plain_terminal]
  by (simp add: applyStyles_def js_def)

theorem table_example_has_five_lines:
  "(case table plain_terminal [[js ''Name'', js ''Age''], [js ''Al'', js ''9'']] no_table_args of
      Inl err \<Rightarrow> 0
    | Inr (txt, rest) \<Rightarrow> lineCount txt) = 5"
  using table_name_age_lines [of plain_terminal]
  by (simp add: applyStyles_def js_def lineCount_def NEWLINE_def HLINE_def VLINE_def)

lemma autoFitTableRows_length [simp]: "length (autoFitTableRows e rows ind) = length rows"
  by (simp add: autoFitTableRows_def Let_def split: fit_result.splits)

text \<open>
  C10.  For a grid with at least the header row, \<open>table\<close> leaves the caller's array
  without its first row, so it is not the array that was passed in; with \<open>autoFit\<close> it
  is the array as auto-fit left it without its first row, so where auto-fit ended with
  working widths \<open>ws\<close> every remaining cell wider than its column's working width has
  been replaced by its truncation.
\<close>

theorem table_shifts_rows:
  assumes "rows \<noteq> []"
  shows "\<exists>txt rows'.
      table e rows targs = Inr (txt, rows') \<and>
      rows' = tl (if autoFit targs then autoFitTableRows e rows (tableIndent targs) else rows) \<and>
      length rows' = length rows - 1 \<and> rows' \<noteq> rows \<and>
      (autoFit targs \<and> 1 \<le> cli_width e - int (stringWidth e (tableIndent targs)) * 2 \<and>
       fitLoop e rows (cli_width e - int (stringWidth e (tableIndent targs)) * 2)
         (naturalWidths e rows) = Fitted ws \<longrightarrow>
       (\<forall>r i. Suc r < length rows \<and> i < length (rows ! Suc r) \<and>
              ws ! i < stringWidth e (rows ! Suc r ! i) \<longrightarrow>
          rows' ! r ! i = truncateCell (rows ! Suc r ! i) (ws ! i)))"
proof -
  define rows1 where
    "rows1 = (if autoFit targs then autoFitTableRows e rows (tableIndent targs) else rows)"
  have len: "length rows1 = length rows" by (simp add: rows1_def)
  then have ne: "rows1 \<noteq> []" using assms by auto
  then obtain header body where hb: "rows1 = header # body" by (cases rows1) auto
  have "\<exists>txt. table e rows targs = Inr (txt, body)"
    unfolding table_def Let_def rows1_def [symmetric] hb by simp
  then obtain rendered where t: "table e rows targs = Inr (rendered, body)" ..
  have b: "body = tl rows1" by (simp add: hb)
  have l: "length body = length rows - 1" using len hb by simp
  have d: "body \<noteq> rows" using l assms by (cases rows) auto
  have cells: "body ! r ! i = truncateCell (rows ! Suc r ! i) (ws ! i)"
    if af: "autoFit targs" and av: "1 \<le> cli_width e - int (stringWidth e (tableIndent targs)) * 2"
      and fit: "fitLoop e rows (cli_width e - int (stringWidth e (tableIndent targs)) * 2)
         (naturalWidths e rows) = Fitted ws"
      and r: "Suc r < length rows" and i: "i < length (rows ! Suc r)"
      and wide: "ws ! i < stringWidth e (rows ! Suc r ! i)" for r i
  proof -
    from autoFit_cell [OF av fit r i]
    have il: "i < length ws"
      and c: "autoFitTableRows e rows (tableIndent targs) ! Suc r ! i =
        pruneCell e ws i (rows ! Suc r ! i)" .
    have "body ! r = rows1 ! Suc r" by (simp add: hb)
    then have "body ! r ! i = pruneCell e ws i (rows ! Suc r ! i)"
      using af c by (simp add: rows1_def)
    then show ?thesis using il wide by (simp add: pruneCell_def nth_opt_eq)
  qed
  show ?thesis using t b l d cells unfolding rows1_def by blast
qed

theorem table_shifts_rows_witness:
  "[[js ''id''], [js ''jhuckaby'']] \<noteq> [] \<and>
   (case table (plain_terminal\<lparr>columns := 9\<rparr>) [[js ''id''], [js ''jhuckaby'']]
           (no_table_args\<lparr>autoFit := True\<rparr>) of
      Inl err \<Rightarrow> []
    | Inr (txt, rows') \<Rightarrow> rows') = [[js ''jhuc'' @ [ELLIPSIS]]]"
proof -
  have t: "truncateCell (js ''jhuckaby'') 5 = js ''jhuc'' @ [ELLIPSIS]"
    by (simp add: truncateCell_plain ESC_def js_def)
  have nw: "naturalWidths (plain_terminal\<lparr>columns := 9\<rparr>) [[js ''id''], [js ''jhuckaby'']] = [8]"
    by (simp add: eval_table)
  have a: "autoFitTableRows (plain_terminal\<lparr>columns := 9\<rparr>) [[js ''id''], [js ''jhuckaby'']] [] =
      [[js ''id''], [js ''jhuc'' @ [ELLIPSIS]]]"
    by (simp add: autoFitTableRows_def nw fit_id_jhuckaby t cli_width_def pruneCell_def nth_opt_eq)
  from table_shifts_rows [of "[[js ''id''], [js ''jhuckaby'']]" "plain_terminal\<lparr>columns := 9\<rparr>"
      "no_table_args\<lparr>autoFit := True\<rparr>" "[5]"]
  show ?thesis
    by (auto simp: a no_table_args_def tableIndent_def)
qed

end
